theory Spec2Isabelle
  imports Main "HOL-Library.Sublist" "HOL-Library.AList"
begin

section \<open>Schema model\<close>

text \<open>
  The two dataclasses of \<^verbatim>\<open>scripts/proto_to_sql.py\<close>. All fields are Python \<^verbatim>\<open>str\<close>
  and \<^verbatim>\<open>bool\<close>; strings are modelled as \<^typ>\<open>string\<close> (lists of 8-bit characters), so
  the model covers ASCII text.
\<close>

record Column =
  name :: string
  data_type :: string
  is_nullable :: bool
  is_primary_key :: bool

record Table =
  name :: string
  columns :: "Column list"
  foreign_keys :: "string list"

text \<open>
  A Python \<^verbatim>\<open>dict\<close> keeps its keys in insertion order, and assigning to a key that is
  already present replaces the value without moving the key. This is an association list
  with \<^const>\<open>AList.update\<close> for \<^verbatim>\<open>d[k] = v\<close> and \<^const>\<open>map_of\<close> for lookup;
  \<^verbatim>\<open>d.items()\<close> is the list itself.
\<close>

type_synonym ('k, 'v) dict = "('k \<times> 'v) list"

section \<open>Python string operations used by the script\<close>

text \<open>\<^verbatim>\<open>str.lower\<close> and the whitespace test of \<^verbatim>\<open>str.strip\<close>, on ASCII characters.\<close>

definition lower_char :: "char \<Rightarrow> char" where
  "lower_char c =
     (case map_of (zip ''ABCDEFGHIJKLMNOPQRSTUVWXYZ'' ''abcdefghijklmnopqrstuvwxyz'') c of
        Some l \<Rightarrow> l
      | None \<Rightarrow> c)"

definition str_lower :: "string \<Rightarrow> string" where
  "str_lower s = map lower_char s"

definition isspace :: "char \<Rightarrow> bool" where
  "isspace c \<longleftrightarrow>
     c \<in> set [CHR 0x09, CHR 0x0A, CHR 0x0B, CHR 0x0C, CHR 0x0D,
              CHR 0x1C, CHR 0x1D, CHR 0x1E, CHR 0x1F, CHR 0x20]"

definition strip :: "string \<Rightarrow> string" where
  "strip s = rev (dropWhile isspace (rev (dropWhile isspace s)))"

text \<open>\<^verbatim>\<open>s.split('\n')\<close>: always at least one piece, the pieces never hold a newline.\<close>

fun split_lines :: "string \<Rightarrow> string list" where
  "split_lines [] = [[]]"
| "split_lines (c # cs) =
     (if c = CHR 0x0A then [] # split_lines cs
      else (case split_lines cs of
              [] \<Rightarrow> [[c]]
            | l # ls \<Rightarrow> (c # l) # ls))"

text \<open>\<^verbatim>\<open>sep.join(xs)\<close>\<close>

fun join :: "string \<Rightarrow> string list \<Rightarrow> string" where
  "join sep [] = []"
| "join sep [x] = x"
| "join sep (x # y # zs) = x @ sep @ join sep (y # zs)"

text \<open>\<^verbatim>\<open>str(n)\<close> for a non-negative integer, as an f-string renders \<^verbatim>\<open>len(statements)\<close>.\<close>

fun str_nat :: "nat \<Rightarrow> string" where
  "str_nat n =
     (if n < 10 then [''0123456789'' ! n]
      else str_nat (n div 10) @ [''0123456789'' ! (n mod 10)])"

declare str_nat.simps [simp del]

section \<open>ProtobufToSQLConverter\<close>

definition TYPE_MAPPING :: "(string, string) dict" where
  "TYPE_MAPPING =
     [(''double'', ''DOUBLE PRECISION''),
      (''float'', ''REAL''),
      (''int32'', ''INTEGER''),
      (''int64'', ''BIGINT''),
      (''uint32'', ''INTEGER''),
      (''uint64'', ''BIGINT''),
      (''sint32'', ''INTEGER''),
      (''sint64'', ''BIGINT''),
      (''fixed32'', ''INTEGER''),
      (''fixed64'', ''BIGINT''),
      (''sfixed32'', ''INTEGER''),
      (''sfixed64'', ''BIGINT''),
      (''bool'', ''BOOLEAN''),
      (''string'', ''TEXT''),
      (''bytes'', ''BYTEA''),
      (''timestamp'', ''TIMESTAMP'')]"

text \<open>\<^verbatim>\<open>self.TYPE_MAPPING.get(field_type, 'TEXT')\<close>\<close>

definition type_mapping_get :: "string \<Rightarrow> string" where
  "type_mapping_get field_type =
     (case map_of TYPE_MAPPING field_type of Some t \<Rightarrow> t | None \<Rightarrow> ''TEXT'')"

text \<open>
  The two regular expressions are evaluated by Python's \<^verbatim>\<open>re\<close> library. The model takes
  what the library returns: for the message pattern the list of
  \<^verbatim>\<open>(match.group(1), match.group(2))\<close> that \<^verbatim>\<open>re.finditer\<close> yields on the file content
  (message name and message body), and for the field pattern a function \<open>field_re\<close>
  from a line to \<^verbatim>\<open>field_match.groups()\<close> (modifier, type, name, number), \<^const>\<open>None\<close>
  when \<^verbatim>\<open>re.match\<close> finds nothing; the modifier group is \<^const>\<open>None\<close> when the optional
  group did not take part in the match.
\<close>

type_synonym field_groups = "string option \<times> string \<times> string \<times> string"

type_synonym tables = "(string, Table) dict"

definition id_column :: Column where
  "id_column =
     \<lparr>Column.name = ''id'', data_type = ''SERIAL'', is_nullable = False, is_primary_key = True\<rparr>"

text \<open>The \<^verbatim>\<open>Table\<close> that \<^verbatim>\<open>_handle_repeated_field\<close> builds, and its store into \<^verbatim>\<open>self.tables\<close>.\<close>

definition repeated_field_table :: "string \<Rightarrow> string \<Rightarrow> string \<Rightarrow> Table" where
  "repeated_field_table array_table_name field_type parent_table =
     (let cols =
            [\<lparr>Column.name = ''id'', data_type = ''SERIAL'', is_nullable = False,
               is_primary_key = True\<rparr>,
             \<lparr>Column.name = ''parent_id'', data_type = ''BIGINT'', is_nullable = False,
               is_primary_key = False\<rparr>,
             \<lparr>Column.name = ''value'', data_type = type_mapping_get field_type,
               is_nullable = False, is_primary_key = False\<rparr>];
          fks = [''FOREIGN KEY (parent_id) REFERENCES '' @ parent_table @ ''(id)'']
      in \<lparr>Table.name = array_table_name, columns = cols, foreign_keys = fks\<rparr>)"

definition handle_repeated_field :: "string \<Rightarrow> string \<Rightarrow> string \<Rightarrow> tables \<Rightarrow> tables" where
  "handle_repeated_field array_table_name field_type parent_table tbls =
     AList.update array_table_name
       (repeated_field_table array_table_name field_type parent_table) tbls"

text \<open>The \<^verbatim>\<open>Column\<close> appended for a field that is not repeated.\<close>

definition field_column :: "string option \<Rightarrow> string \<Rightarrow> string \<Rightarrow> Column" where
  "field_column modifier field_type field_name =
     \<lparr>Column.name = field_name, data_type = type_mapping_get field_type,
      is_nullable = (modifier \<noteq> Some ''required''), is_primary_key = False\<rparr>"

text \<open>
  The body of the loop over the lines of a message body; the state is the local
  \<^verbatim>\<open>columns\<close> list and \<^verbatim>\<open>self.tables\<close>.
\<close>

definition parse_line ::
  "(string \<Rightarrow> field_groups option) \<Rightarrow> string \<Rightarrow> string \<Rightarrow> Column list \<times> tables
     \<Rightarrow> Column list \<times> tables" where
  "parse_line field_re table_name raw st =
     (let line = strip raw; cols = fst st; tbls = snd st in
      if line = [] \<or> prefix ''//'' line then st
      else (case field_re line of
              None \<Rightarrow> st
            | Some (modifier, field_type, field_name, number) \<Rightarrow>
                if modifier = Some ''repeated''
                then (cols,
                      handle_repeated_field (table_name @ ''_'' @ field_name) field_type
                        table_name tbls)
                else (cols @ [field_column modifier field_type field_name], tbls)))"

definition message_table_name :: "string \<Rightarrow> string \<Rightarrow> string" where
  "message_table_name table_name_base message_name =
     (if str_lower message_name = ''root'' then table_name_base
      else table_name_base @ ''_'' @ str_lower message_name)"

text \<open>The body of the loop over the message matches.\<close>

definition parse_message ::
  "(string \<Rightarrow> field_groups option) \<Rightarrow> string \<Rightarrow> string \<times> string \<Rightarrow> tables \<Rightarrow> tables" where
  "parse_message field_re table_name_base m tbls =
     (let message_name = fst m; message_body = snd m;
          table_name = message_table_name table_name_base message_name;
          st = fold (parse_line field_re table_name) (split_lines message_body)
                 ([id_column], tbls)
      in AList.update table_name
           \<lparr>Table.name = table_name, columns = fst st, foreign_keys = []\<rparr> (snd st))"

text \<open>
  \<open>stem\<close> is \<^verbatim>\<open>os.path.splitext(os.path.basename(proto_file))[0]\<close> and \<open>matches\<close> the
  \<^verbatim>\<open>re.finditer\<close> result on the file content.
\<close>

definition parse_proto_file ::
  "(string \<Rightarrow> field_groups option) \<Rightarrow> string \<Rightarrow> (string \<times> string) list \<Rightarrow> tables" where
  "parse_proto_file field_re stem matches =
     fold (parse_message field_re (str_lower stem)) matches []"

section \<open>SchemaManager: the reconciler\<close>

text \<open>\<^verbatim>\<open>{col.name: col for col in cols}\<close>\<close>

definition cols_dict :: "Column list \<Rightarrow> (string, Column) dict" where
  "cols_dict cols = fold (\<lambda>col d. AList.update (Column.name col) col d) cols []"

definition nullable_str :: "bool \<Rightarrow> string" where
  "nullable_str b = (if b then ''NULL'' else ''NOT NULL'')"

definition column_def :: "Column \<Rightarrow> string" where
  "column_def col =
     (let nullable = nullable_str (is_nullable col);
          pk = (if is_primary_key col then ''PRIMARY KEY'' else [])
      in strip (Column.name col @ '' '' @ data_type col @ '' '' @ nullable @ '' '' @ pk))"

definition create_stmt :: "string \<Rightarrow> string list \<Rightarrow> string" where
  "create_stmt table_name column_defs =
     ''\<newline>            CREATE TABLE '' @ table_name @ '' (\<newline>                '' @
     join '','' column_defs @ ''\<newline>            );\<newline>            ''"

definition create_fk_stmt :: "string \<Rightarrow> string \<Rightarrow> string" where
  "create_fk_stmt table_name fk =
     ''ALTER TABLE '' @ table_name @ '' ADD CONSTRAINT fk_'' @ table_name @ '' '' @ fk @ '';''"

definition create_table_statements :: "Table \<Rightarrow> string list" where
  "create_table_statements table =
     (let column_defs = fold (\<lambda>col defs. defs @ [column_def col]) (columns table) [];
          statements = [create_stmt (Table.name table) column_defs]
      in fold (\<lambda>fk st. st @ [create_fk_stmt (Table.name table) fk])
           (foreign_keys table) statements)"

definition add_column_stmt :: "string \<Rightarrow> string \<Rightarrow> Column \<Rightarrow> string" where
  "add_column_stmt table_name col_name col =
     ''ALTER TABLE '' @ table_name @ '' ADD COLUMN '' @ col_name @ '' '' @
     data_type col @ '' '' @ nullable_str (is_nullable col) @ '';''"

definition alter_column_stmt :: "string \<Rightarrow> string \<Rightarrow> Column \<Rightarrow> string" where
  "alter_column_stmt table_name col_name new_col =
     ''ALTER TABLE '' @ table_name @ '' ALTER COLUMN '' @ col_name @ '' TYPE '' @
     data_type new_col @ '' USING '' @ col_name @ ''::'' @ data_type new_col @
     '', ALTER COLUMN '' @ col_name @ '' SET '' @ nullable_str (is_nullable new_col) @ '';''"

definition alter_fk_stmt :: "string \<Rightarrow> nat \<Rightarrow> string \<Rightarrow> string" where
  "alter_fk_stmt table_name n fk =
     ''ALTER TABLE '' @ table_name @ '' ADD CONSTRAINT fk_'' @ table_name @ ''_'' @
     str_nat n @ '' '' @ fk @ '';''"

text \<open>
  \<^verbatim>\<open>for fk in new_fks - current_fks\<close> iterates over a Python \<^verbatim>\<open>set\<close> of strings. The elements
  are those of the new list that are not in the current one, each once; the order in
  which a set of strings is iterated depends on the string hashes, which Python
  randomises per process, so it is a parameter \<open>set_iter\<close> of the model: a function that
  lists the elements of the collection it is given, each once, in some order.
\<close>

definition set_iteration :: "(string list \<Rightarrow> string list) \<Rightarrow> bool" where
  "set_iteration set_iter \<longleftrightarrow> (\<forall>xs. set (set_iter xs) = set xs \<and> distinct (set_iter xs))"

definition fk_difference :: "string list \<Rightarrow> string list \<Rightarrow> string list" where
  "fk_difference new_fks current_fks = filter (\<lambda>fk. fk \<notin> set current_fks) new_fks"

definition alter_table_statements ::
  "(string list \<Rightarrow> string list) \<Rightarrow> Table \<Rightarrow> Table \<Rightarrow> string list" where
  "alter_table_statements set_iter current new =
     (let current_cols = cols_dict (columns current);
          new_cols = cols_dict (columns new);
          statements = [];
          statements =
            fold (\<lambda>(col_name, col) st.
                    if map_of current_cols col_name = None
                    then st @ [add_column_stmt (Table.name current) col_name col]
                    else st)
              new_cols statements;
          statements =
            fold (\<lambda>(col_name, new_col) st.
                    case map_of current_cols col_name of
                      None \<Rightarrow> st
                    | Some current_col \<Rightarrow>
                        if data_type new_col \<noteq> data_type current_col \<or>
                           is_nullable new_col \<noteq> is_nullable current_col
                        then st @ [alter_column_stmt (Table.name current) col_name new_col]
                        else st)
              new_cols statements
      in fold (\<lambda>fk st. st @ [alter_fk_stmt (Table.name current) (length st) fk])
           (set_iter (fk_difference (foreign_keys new) (foreign_keys current))) statements)"

text \<open>
  \<open>current_tables\<close> is \<^verbatim>\<open>self.db_schema.current_tables\<close>, the snapshot of the live
  schema taken when the manager was constructed.
\<close>

definition generate_migration ::
  "(string list \<Rightarrow> string list) \<Rightarrow> tables \<Rightarrow> tables \<Rightarrow> string list" where
  "generate_migration set_iter current_tables new_tables =
     fold (\<lambda>(table_name, new_table) migration_statements.
             case map_of current_tables table_name of
               None \<Rightarrow> migration_statements @ create_table_statements new_table
             | Some current_table \<Rightarrow>
                 migration_statements @
                 alter_table_statements set_iter current_table new_table)
       new_tables []"

section \<open>Processing a list of proto files\<close>

text \<open>
  A proto file is given by its stem and the message matches of its content. The database
  connection is abstract: \<open>exec db stmt\<close> is the database after \<^verbatim>\<open>cur.execute(stmt)\<close>, or
  \<^const>\<open>None\<close> when the call raises. Every call of \<^verbatim>\<open>process_proto_file\<close> starts with no
  open transaction, so \<^verbatim>\<open>rollback\<close> restores the database the call started with and
  \<^verbatim>\<open>commit\<close> keeps the one reached. \<open>sql_files\<close> records what \<^verbatim>\<open>write_migration\<close> wrote;
  the path it returns (a timestamped file name) is represented by the proto name.
\<close>

record proto_file =
  stem :: string
  matches :: "(string \<times> string) list"

datatype error = ExecutionError string

record 'db world =
  db :: 'db
  sql_files :: "(string \<times> string list) list"

fun execute_all :: "('db \<Rightarrow> string \<Rightarrow> 'db option) \<Rightarrow> 'db \<Rightarrow> string list \<Rightarrow> error + 'db" where
  "execute_all exec d [] = Inr d"
| "execute_all exec d (statement # rest) =
     (case exec d statement of
        None \<Rightarrow> Inl (ExecutionError statement)
      | Some d' \<Rightarrow> execute_all exec d' rest)"

definition process_proto_file ::
  "(string \<Rightarrow> field_groups option) \<Rightarrow> (string list \<Rightarrow> string list) \<Rightarrow>
   ('db \<Rightarrow> string \<Rightarrow> 'db option) \<Rightarrow> tables \<Rightarrow> 'db world \<Rightarrow> proto_file \<Rightarrow>
   'db world \<times> (error + string option)" where
  "process_proto_file field_re set_iter exec current_tables w pf =
     (let new_tables = parse_proto_file field_re (stem pf) (matches pf);
          migration_statements = generate_migration set_iter current_tables new_tables
      in if migration_statements \<noteq> [] then
           (let proto_name = stem pf;
                w1 = w\<lparr>sql_files := sql_files w @ [(proto_name, migration_statements)]\<rparr>
            in case execute_all exec (db w1) migration_statements of
                 Inl e \<Rightarrow> (w1\<lparr>db := db w\<rparr>, Inl e)
               | Inr d' \<Rightarrow> (w1\<lparr>db := d'\<rparr>, Inr (Some proto_name)))
         else (w, Inr None))"

text \<open>
  The loop of \<^verbatim>\<open>main\<close> over the proto files. An exception raised by
  \<^verbatim>\<open>process_proto_file\<close> leaves the loop; \<^verbatim>\<open>main\<close> logs it and raises it again.
\<close>

fun process_files ::
  "(string \<Rightarrow> field_groups option) \<Rightarrow> (string list \<Rightarrow> string list) \<Rightarrow>
   ('db \<Rightarrow> string \<Rightarrow> 'db option) \<Rightarrow> tables \<Rightarrow> 'db world \<Rightarrow> proto_file list \<Rightarrow>
   string list \<Rightarrow> 'db world \<times> (error + string list)" where
  "process_files field_re set_iter exec current_tables w [] migration_files =
     (w, Inr migration_files)"
| "process_files field_re set_iter exec current_tables w (pf # rest) migration_files =
     (case process_proto_file field_re set_iter exec current_tables w pf of
        (w', Inl e) \<Rightarrow> (w', Inl e)
      | (w', Inr sql_file) \<Rightarrow>
          process_files field_re set_iter exec current_tables w' rest
            (case sql_file of
               Some p \<Rightarrow> migration_files @ [p]
             | None \<Rightarrow> migration_files))"

definition main ::
  "(string \<Rightarrow> field_groups option) \<Rightarrow> (string list \<Rightarrow> string list) \<Rightarrow>
   ('db \<Rightarrow> string \<Rightarrow> 'db option) \<Rightarrow> tables \<Rightarrow> 'db world \<Rightarrow> proto_file list \<Rightarrow>
   'db world \<times> (error + string list)" where
  "main field_re set_iter exec current_tables w proto_files =
     (if proto_files = [] then (w, Inr [])
      else process_files field_re set_iter exec current_tables w proto_files [])"

section \<open>Derived notions used to state the properties\<close>

text \<open>
  The field matches of a message body, in line order: the lines that the loop does not
  skip, with the groups the field pattern returns on them.
\<close>

definition message_fields :: "(string \<Rightarrow> field_groups option) \<Rightarrow> string \<Rightarrow> field_groups list" where
  "message_fields field_re message_body =
     List.map_filter
       (\<lambda>raw. let line = strip raw in
               if line = [] \<or> prefix ''//'' line then None else field_re line)
       (split_lines message_body)"

definition is_repeated :: "field_groups \<Rightarrow> bool" where
  "is_repeated g \<longleftrightarrow> fst g = Some ''repeated''"

definition field_name_of :: "field_groups \<Rightarrow> string" where
  "field_name_of g = fst (snd (snd g))"

text \<open>
  The stores into \<^verbatim>\<open>self.tables\<close> that one message causes, in the order in which they
  happen: one child table per repeated field, then the table of the message itself.
\<close>

definition child_write :: "string \<Rightarrow> field_groups \<Rightarrow> string \<times> Table" where
  "child_write table_name g =
     (case g of (modifier, field_type, field_name, number) \<Rightarrow>
        (table_name @ ''_'' @ field_name,
         repeated_field_table (table_name @ ''_'' @ field_name) field_type table_name))"

definition scalar_column :: "field_groups \<Rightarrow> Column" where
  "scalar_column g =
     (case g of (modifier, field_type, field_name, number) \<Rightarrow>
        field_column modifier field_type field_name)"

definition message_columns :: "field_groups list \<Rightarrow> Column list" where
  "message_columns flds =
     id_column # map scalar_column (filter (\<lambda>g. \<not> is_repeated g) flds)"

definition message_writes ::
  "(string \<Rightarrow> field_groups option) \<Rightarrow> string \<Rightarrow> string \<times> string \<Rightarrow> (string \<times> Table) list" where
  "message_writes field_re table_name_base m =
     (let table_name = message_table_name table_name_base (fst m);
          flds = message_fields field_re (snd m)
      in map (child_write table_name) (filter is_repeated flds) @
         [(table_name,
           \<lparr>Table.name = table_name, columns = message_columns flds, foreign_keys = []\<rparr>)])"

definition source_writes ::
  "(string \<Rightarrow> field_groups option) \<Rightarrow> string \<Rightarrow> (string \<times> string) list \<Rightarrow>
   (string \<times> Table) list" where
  "source_writes field_re fstem ms =
     concat (map (message_writes field_re (str_lower fstem)) ms)"

definition store_all :: "(string \<times> Table) list \<Rightarrow> tables \<Rightarrow> tables" where
  "store_all ws tbls = fold (\<lambda>w d. AList.update (fst w) (snd w) d) ws tbls"

text \<open>The statements that one declared table contributes to the migration.\<close>

definition table_statements ::
  "(string list \<Rightarrow> string list) \<Rightarrow> tables \<Rightarrow> string \<times> Table \<Rightarrow> string list" where
  "table_statements set_iter current_tables kt =
     (case map_of current_tables (fst kt) of
        None \<Rightarrow> create_table_statements (snd kt)
      | Some current_table \<Rightarrow> alter_table_statements set_iter current_table (snd kt))"

definition col_changed :: "(string, Column) dict \<Rightarrow> string \<times> Column \<Rightarrow> bool" where
  "col_changed current_cols kc \<longleftrightarrow>
     (case map_of current_cols (fst kc) of
        None \<Rightarrow> False
      | Some current_col \<Rightarrow>
          data_type (snd kc) \<noteq> data_type current_col \<or>
          is_nullable (snd kc) \<noteq> is_nullable current_col)"


text \<open>A string without the text \<open>DROP\<close>, and a table all of whose strings are such.\<close>

definition drop_free :: "string \<Rightarrow> bool" where
  "drop_free s \<longleftrightarrow> \<not> sublist ''DROP'' s"


text \<open>
  The foreign keys of a declared table that its current counterpart lacks: the elements of
  the set difference that \<^verbatim>\<open>_alter_table_statements\<close> iterates over.
\<close>

definition new_fks_of :: "tables \<Rightarrow> string \<times> Table \<Rightarrow> string list" where
  "new_fks_of current_tables kt =
     (case map_of current_tables (fst kt) of
        None \<Rightarrow> []
      | Some current_table \<Rightarrow>
          fk_difference (foreign_keys (snd kt)) (foreign_keys current_table))"

section \<open>Sample inputs\<close>

text \<open>
  What \<^verbatim>\<open>re.match\<close> with the field pattern returns on four field lines, and the message
  matches of two small proto files: \<^verbatim>\<open>message Root { repeated string tags = 1; }\<close>, alone
  and followed by \<^verbatim>\<open>message Tags { optional string label = 1; }\<close>.
\<close>

definition example_re :: "string \<Rightarrow> field_groups option" where
  "example_re =
     map_of
       [(''repeated string tags = 1;'', (Some ''repeated'', ''string'', ''tags'', ''1'')),
        (''optional string label = 1;'', (Some ''optional'', ''string'', ''label'', ''1'')),
        (''repeated blob data = 2;'', (Some ''repeated'', ''blob'', ''data'', ''2'')),
        (''required geo place = 3;'', (Some ''required'', ''geo'', ''place'', ''3''))]"

definition widget_matches :: "(string \<times> string) list" where
  "widget_matches = [(''Root'', ''\<newline>  repeated string tags = 1;\<newline>'')]"

definition collide_matches :: "(string \<times> string) list" where
  "collide_matches =
     [(''Root'', ''\<newline>  repeated string tags = 1;\<newline>''),
      (''Tags'', ''\<newline>  optional string label = 1;\<newline>'')]"

definition widget_tables :: tables where
  "widget_tables =
     [(''widget_tags'', repeated_field_table ''widget_tags'' ''string'' ''widget''),
      (''widget'', \<lparr>Table.name = ''widget'', columns = [id_column], foreign_keys = []\<rparr>)]"

definition legacy_table :: Table where
  "legacy_table =
     \<lparr>Table.name = ''legacy'',
      columns = [\<lparr>Column.name = ''code'', data_type = ''TEXT'', is_nullable = True,
                  is_primary_key = False\<rparr>],
      foreign_keys = []\<rparr>"


definition asset_current :: tables where
  "asset_current =
     [(''asset'', \<lparr>Table.name = ''asset'', columns = [id_column], foreign_keys = []\<rparr>)]"

definition asset_declared :: tables where
  "asset_declared =
     [(''asset'',
       \<lparr>Table.name = ''asset'', columns = [id_column],
          foreign_keys =
            [''FOREIGN KEY (owner_id) REFERENCES owner(id)'',
             ''FOREIGN KEY (site_id) REFERENCES site(id)'']\<rparr>)]"

definition widget_tags_current :: tables where
  "widget_tags_current =
     [(''widget_tags'',
       \<lparr>Table.name = ''widget_tags'', columns = [id_column], foreign_keys = []\<rparr>)]"

definition widget_file :: proto_file where
  "widget_file = \<lparr>stem = ''Widget'', matches = widget_matches\<rparr>"

definition gadget_file :: proto_file where
  "gadget_file =
     \<lparr>stem = ''gadget'', matches = [(''Root'', ''\<newline>  optional string label = 1;\<newline>'')]\<rparr>"

definition reject_constraint :: "string list \<Rightarrow> string \<Rightarrow> string list option" where
  "reject_constraint applied statement =
     (if prefix ''ALTER TABLE widget_tags ADD CONSTRAINT'' statement then None
      else Some (applied @ [statement]))"

definition empty_world :: "string list world" where
  "empty_world = \<lparr>db = [], sql_files = []\<rparr>"

section \<open>The translator as a sequence of stores\<close>

lemma set_update_subset: "set (AList.update k v d) \<subseteq> insert (k, v) (set d)"
  by (induction d) auto

lemma update_fresh: "k \<notin> fst ` set d \<Longrightarrow> AList.update k v d = d @ [(k, v)]"
  by (induction d) auto

lemma store_all_append: "store_all (xs @ ys) d = store_all ys (store_all xs d)"
  by (simp add: store_all_def)

lemma set_store_all: "set (store_all ws d) \<subseteq> set ws \<union> set d"
proof (induction ws arbitrary: d)
  case Nil
  then show ?case by (simp add: store_all_def)
next
  case (Cons w ws)
  have "set (store_all (w # ws) d) = set (store_all ws (AList.update (fst w) (snd w) d))"
    by (simp add: store_all_def)
  also have "\<dots> \<subseteq> set ws \<union> set (AList.update (fst w) (snd w) d)"
    by (rule Cons.IH)
  also have "\<dots> \<subseteq> set (w # ws) \<union> set d"
    using set_update_subset[of "fst w" "snd w" d] by auto
  finally show ?case .
qed

lemma store_all_distinct: "distinct (map fst (d @ ws)) \<Longrightarrow> store_all ws d = d @ ws"
proof (induction ws arbitrary: d)
  case Nil
  then show ?case by (simp add: store_all_def)
next
  case (Cons w ws)
  from Cons.prems have fresh: "fst w \<notin> fst ` set d" by auto
  from Cons.prems have "distinct (map fst ((d @ [w]) @ ws))" by auto
  from Cons.IH[OF this] fresh show ?case
    by (simp add: store_all_def update_fresh)
qed

lemma parse_line_skip:
  "(let line = strip raw in if line = [] \<or> prefix ''//'' line then None else field_re line) = None
   \<Longrightarrow> parse_line field_re P raw st = st"
  by (auto simp: parse_line_def Let_def split: if_splits)

lemma parse_line_field:
  "(let line = strip raw in if line = [] \<or> prefix ''//'' line then None else field_re line) = Some g
   \<Longrightarrow> parse_line field_re P raw st =
        (if is_repeated g
         then (fst st, AList.update (fst (child_write P g)) (snd (child_write P g)) (snd st))
         else (fst st @ [scalar_column g], snd st))"
  by (cases g) (auto simp: parse_line_def Let_def is_repeated_def child_write_def
      scalar_column_def handle_repeated_field_def split: if_splits)

lemma fold_parse_line:
  "fold (parse_line field_re P) ls st =
     (fst st @ map scalar_column (filter (\<lambda>g. \<not> is_repeated g)
        (List.map_filter (\<lambda>raw. let line = strip raw in
               if line = [] \<or> prefix ''//'' line then None else field_re line) ls)),
      store_all (map (child_write P) (filter is_repeated
        (List.map_filter (\<lambda>raw. let line = strip raw in
               if line = [] \<or> prefix ''//'' line then None else field_re line) ls))) (snd st))"
proof (induction ls arbitrary: st)
  case Nil
  then show ?case by (simp add: store_all_def)
next
  case (Cons l ls)
  show ?case
  proof (cases "(let line = strip l in
                 if line = [] \<or> prefix ''//'' line then None else field_re line)")
    case None
    then show ?thesis
      using Cons.IH[of st] parse_line_skip[OF None, of P st] by simp
  next
    case (Some g)
    then show ?thesis
      using Cons.IH[of "parse_line field_re P l st"] parse_line_field[OF Some, of P st]
      by (simp add: store_all_def)
  qed
qed

lemma parse_message_writes:
  "parse_message field_re base m tbls = store_all (message_writes field_re base m) tbls"
  by (simp add: parse_message_def Let_def fold_parse_line message_writes_def message_fields_def
      message_columns_def store_all_append) (simp add: store_all_def)

lemma fold_parse_message:
  "fold (parse_message field_re base) ms tbls =
     store_all (concat (map (message_writes field_re base) ms)) tbls"
  by (induction ms arbitrary: tbls)
     (simp_all add: parse_message_writes store_all_append, simp add: store_all_def)

lemma parse_proto_file_writes:
  "parse_proto_file field_re fstem ms = store_all (source_writes field_re fstem ms) []"
  by (simp add: parse_proto_file_def source_writes_def fold_parse_message)

lemma parse_proto_file_subset:
  "set (parse_proto_file field_re fstem ms) \<subseteq> set (source_writes field_re fstem ms)"
  using set_store_all[of "source_writes field_re fstem ms" "[]"]
  by (simp add: parse_proto_file_writes)

lemma source_write_shape:
  assumes "(k, t) \<in> set (source_writes field_re fstem ms)"
  shows "(\<exists>ty parent. t = repeated_field_table k ty parent) \<or>
         (\<exists>flds. t = \<lparr>Table.name = k, columns = message_columns flds, foreign_keys = []\<rparr>)"
  using assms
  by (auto simp: source_writes_def message_writes_def Let_def child_write_def split: prod.splits)

lemma scalar_column_not_pk: "\<not> is_primary_key (scalar_column g)"
  by (cases g) (simp add: scalar_column_def field_column_def)

lemma filter_pk_message_columns: "filter is_primary_key (message_columns flds) = [id_column]"
  by (simp add: message_columns_def id_column_def scalar_column_not_pk filter_empty_conv)

lemma name_scalar_column: "Column.name (scalar_column g) = field_name_of g"
  by (cases g) (simp add: scalar_column_def field_column_def field_name_of_def)

lemma widget_fields:
  "message_fields example_re ''\<newline>  repeated string tags = 1;\<newline>'' =
     [(Some ''repeated'', ''string'', ''tags'', ''1'')]"
  by (simp add: message_fields_def strip_def isspace_def example_re_def)

lemma widget_parsed: "parse_proto_file example_re ''Widget'' widget_matches = widget_tables"
  by (simp add: parse_proto_file_def parse_message_def widget_matches_def parse_line_def
      strip_def isspace_def example_re_def handle_repeated_field_def message_table_name_def
      str_lower_def lower_char_def Let_def widget_tables_def)

section \<open>Repeated fields\<close>

text \<open>
  Claim C1, as the code has it. The claim fails when the name of the child table is also
  the name of another table of the same source (see the counterexample below), because
  the later store replaces the earlier one. When the table names that the source
  produces (message tables and child tables) are pairwise distinct, then for every
  message \<open>m\<close> with table name \<open>P\<close> and every field of \<open>m\<close> marked \<open>repeated\<close>, with name
  \<open>f\<close> and element type \<open>t\<close>: the result maps \<open>P_f\<close> to a table with exactly the three
  columns \<open>id\<close> (SERIAL, not nullable, primary key), \<open>parent_id\<close> (BIGINT, not nullable)
  and \<open>value\<close> (the mapping of \<open>t\<close>, not nullable), in this order, and exactly the one
  foreign key from \<open>parent_id\<close> to \<open>P.id\<close>; and the columns of \<open>P\<close> are \<open>id\<close> followed by
  one column per field of \<open>m\<close> that is not repeated, so the repeated field adds no column:
  \<open>P\<close> has no column named \<open>f\<close> unless \<open>f\<close> is \<open>id\<close> or a non-repeated field of \<open>m\<close> has
  that name too.
\<close>

theorem repeated_field_child_table:
  assumes names: "distinct (map fst (source_writes field_re fstem ms))"
      and m: "m \<in> set ms"
      and fld: "(Some ''repeated'', t, f, n) \<in> set (message_fields field_re (snd m))"
      and P: "P = message_table_name (str_lower fstem) (fst m)"
  shows "map_of (parse_proto_file field_re fstem ms) (P @ ''_'' @ f) =
           Some \<lparr>Table.name = P @ ''_'' @ f,
                  columns =
                    [\<lparr>Column.name = ''id'', data_type = ''SERIAL'', is_nullable = False,
                       is_primary_key = True\<rparr>,
                     \<lparr>Column.name = ''parent_id'', data_type = ''BIGINT'', is_nullable = False,
                       is_primary_key = False\<rparr>,
                     \<lparr>Column.name = ''value'', data_type = type_mapping_get t,
                       is_nullable = False, is_primary_key = False\<rparr>],
                  foreign_keys = [''FOREIGN KEY (parent_id) REFERENCES '' @ P @ ''(id)'']\<rparr> \<and>
         (\<exists>tbl. map_of (parse_proto_file field_re fstem ms) P = Some tbl \<and>
                columns tbl =
                  id_column #
                  map scalar_column
                    (filter (\<lambda>g. \<not> is_repeated g) (message_fields field_re (snd m))) \<and>
                (f \<noteq> ''id'' \<and>
                 (\<forall>g \<in> set (message_fields field_re (snd m)).
                    \<not> is_repeated g \<longrightarrow> field_name_of g \<noteq> f)
                 \<longrightarrow> f \<notin> Column.name ` set (columns tbl)))"
proof -
  let ?ws = "source_writes field_re fstem ms"
  let ?flds = "message_fields field_re (snd m)"
  let ?tbl = "\<lparr>Table.name = P, columns = message_columns ?flds, foreign_keys = []\<rparr>"
  have res: "parse_proto_file field_re fstem ms = ?ws"
    using store_all_distinct[of "[]" ?ws] names by (simp add: parse_proto_file_writes)
  have rep: "is_repeated (Some ''repeated'', t, f, n)"
    by (simp add: is_repeated_def)
  have mw: "set (message_writes field_re (str_lower fstem) m) \<subseteq> set ?ws"
    using m by (auto simp: source_writes_def)
  have "child_write P (Some ''repeated'', t, f, n)
          \<in> set (message_writes field_re (str_lower fstem) m)"
    using fld rep P by (simp add: message_writes_def Let_def)
  with mw have "(P @ ''_'' @ f, repeated_field_table (P @ ''_'' @ f) t P) \<in> set ?ws"
    by (auto simp: child_write_def)
  with names have child:
    "map_of ?ws (P @ ''_'' @ f) = Some (repeated_field_table (P @ ''_'' @ f) t P)"
    by simp
  have "(P, ?tbl) \<in> set (message_writes field_re (str_lower fstem) m)"
    using P by (simp add: message_writes_def Let_def)
  with mw have "(P, ?tbl) \<in> set ?ws" by blast
  with names have parent: "map_of ?ws P = Some ?tbl"
    by simp
  have cols: "columns ?tbl = id_column # map scalar_column (filter (\<lambda>g. \<not> is_repeated g) ?flds)"
    by (simp add: message_columns_def)
  have nocol: "f \<notin> Column.name ` set (columns ?tbl)"
    if "f \<noteq> ''id''" "\<forall>g \<in> set ?flds. \<not> is_repeated g \<longrightarrow> field_name_of g \<noteq> f"
    using that by (auto simp: message_columns_def id_column_def name_scalar_column)
  from child parent cols nocol show ?thesis
    unfolding res by (simp add: repeated_field_table_def)
qed

theorem repeated_field_child_table_witness:
  "distinct (map fst (source_writes example_re ''Widget'' widget_matches)) \<and>
   map_of (parse_proto_file example_re ''Widget'' widget_matches) ''widget_tags'' =
           Some \<lparr>Table.name = ''widget_tags'',
                  columns =
                    [\<lparr>Column.name = ''id'', data_type = ''SERIAL'', is_nullable = False,
                       is_primary_key = True\<rparr>,
                     \<lparr>Column.name = ''parent_id'', data_type = ''BIGINT'', is_nullable = False,
                       is_primary_key = False\<rparr>,
                     \<lparr>Column.name = ''value'', data_type = ''TEXT'',
                       is_nullable = False, is_primary_key = False\<rparr>],
                  foreign_keys = [''FOREIGN KEY (parent_id) REFERENCES widget(id)'']\<rparr> \<and>
   (\<exists>tbl. map_of (parse_proto_file example_re ''Widget'' widget_matches) ''widget'' = Some tbl \<and>
          columns tbl = [id_column] \<and> ''tags'' \<notin> Column.name ` set (columns tbl))"
proof -
  let ?body = "''\<newline>  repeated string tags = 1;\<newline>''"
  have names: "distinct (map fst (source_writes example_re ''Widget'' widget_matches))"
    by (simp add: source_writes_def widget_matches_def message_writes_def widget_fields
        is_repeated_def child_write_def message_table_name_def str_lower_def lower_char_def
        Let_def)
  have m: "(''Root'', ?body) \<in> set widget_matches"
    by (simp add: widget_matches_def)
  have fld: "(Some ''repeated'', ''string'', ''tags'', ''1'')
               \<in> set (message_fields example_re (snd (''Root'', ?body)))"
    by (simp add: widget_fields)
  have P: "''widget'' = message_table_name (str_lower ''Widget'') (fst (''Root'', ?body))"
    by (simp add: message_table_name_def str_lower_def lower_char_def)
  from repeated_field_child_table[OF names m fld P] names show ?thesis
    by (simp add: widget_fields is_repeated_def field_name_of_def type_mapping_get_def
        TYPE_MAPPING_def)
qed

text \<open>
  The counterexample to C1 as stated: in the source \<open>widget\<close> with
  \<^verbatim>\<open>message Root { repeated string tags = 1; }\<close> followed by
  \<^verbatim>\<open>message Tags { optional string label = 1; }\<close>, the table of the second message has
  the name \<open>widget_tags\<close> of the child table and replaces it: the result has no table
  with the three columns and the foreign key.
\<close>

theorem repeated_field_child_table_counterexample:
  "(''Root'', ''\<newline>  repeated string tags = 1;\<newline>'') \<in> set collide_matches \<and>
   (Some ''repeated'', ''string'', ''tags'', ''1'')
     \<in> set (message_fields example_re ''\<newline>  repeated string tags = 1;\<newline>'') \<and>
   message_table_name (str_lower ''widget'') ''Root'' = ''widget'' \<and>
   map_of (parse_proto_file example_re ''widget'' collide_matches) ''widget_tags'' =
     Some \<lparr>Table.name = ''widget_tags'',
            columns =
              [\<lparr>Column.name = ''id'', data_type = ''SERIAL'', is_nullable = False,
                 is_primary_key = True\<rparr>,
               \<lparr>Column.name = ''label'', data_type = ''TEXT'', is_nullable = True,
                 is_primary_key = False\<rparr>],
            foreign_keys = []\<rparr>"
  by (simp add: collide_matches_def message_fields_def strip_def isspace_def example_re_def
      message_table_name_def str_lower_def lower_char_def parse_proto_file_def parse_message_def
      parse_line_def handle_repeated_field_def Let_def id_column_def field_column_def
      type_mapping_get_def TYPE_MAPPING_def)

section \<open>Table names\<close>

text \<open>
  Claim C6, as the code has it. The message name is lower-cased before it is used, so
  two messages whose names differ only in the case of their letters get the same table
  name (the counterexample below: \<open>Foo\<close> and \<open>foo\<close>). Any two messages of a source whose
  lower-cased names differ get distinct table names.
\<close>

theorem table_names_distinct:
  assumes "str_lower m1 \<noteq> str_lower m2"
  shows "message_table_name (str_lower fstem) m1 \<noteq> message_table_name (str_lower fstem) m2"
proof -
  have "b \<noteq> b @ ''_'' @ x" for b x :: string
    by simp
  then show ?thesis
    using assms by (auto simp: message_table_name_def)
qed

theorem table_names_distinct_witness:
  "str_lower ''Foo'' \<noteq> str_lower ''Bar'' \<and>
   message_table_name (str_lower ''Widget'') ''Foo'' \<noteq>
   message_table_name (str_lower ''Widget'') ''Bar''"
proof -
  have h: "str_lower ''Foo'' \<noteq> str_lower ''Bar''"
    by (simp add: str_lower_def lower_char_def)
  from table_names_distinct[OF h] h show ?thesis by simp
qed

theorem table_names_collide:
  "''Foo'' \<noteq> ''foo'' \<and>
   message_table_name (str_lower ''widget'') ''Foo'' =
   message_table_name (str_lower ''widget'') ''foo''"
  by (simp add: message_table_name_def str_lower_def lower_char_def)

section \<open>The primary key\<close>

text \<open>
  Claim C8: every table in the result of the translation, message table or child table,
  has exactly one primary-key column; it is the first column of the table, it is named
  \<open>id\<close>, has type SERIAL and is not nullable, whichever fields were declared.
\<close>

theorem single_primary_key:
  assumes "(k, t) \<in> set (parse_proto_file field_re fstem ms)"
  shows "(\<exists>rest. columns t =
            \<lparr>Column.name = ''id'', data_type = ''SERIAL'', is_nullable = False,
               is_primary_key = True\<rparr> # rest) \<and>
          filter is_primary_key (columns t) =
            [\<lparr>Column.name = ''id'', data_type = ''SERIAL'', is_nullable = False,
               is_primary_key = True\<rparr>]"
proof -
  from assms parse_proto_file_subset have "(k, t) \<in> set (source_writes field_re fstem ms)"
    by blast
  then consider (child) ty parent where "t = repeated_field_table k ty parent"
    | (msg) flds where "t = \<lparr>Table.name = k, columns = message_columns flds, foreign_keys = []\<rparr>"
    using source_write_shape by blast
  then show ?thesis
  proof cases
    case child
    then show ?thesis by (simp add: repeated_field_table_def)
  next
    case msg
    have "filter is_primary_key (columns t) = [id_column]"
      using msg filter_pk_message_columns by simp
    moreover have "columns t = id_column # map scalar_column (filter (\<lambda>g. \<not> is_repeated g) flds)"
      using msg by (simp add: message_columns_def)
    ultimately show ?thesis by (simp add: id_column_def)
  qed
qed

theorem single_primary_key_witness:
  "(''widget_tags'', repeated_field_table ''widget_tags'' ''string'' ''widget'')
     \<in> set (parse_proto_file example_re ''Widget'' widget_matches) \<and>
   filter is_primary_key (columns (repeated_field_table ''widget_tags'' ''string'' ''widget'')) =
     [\<lparr>Column.name = ''id'', data_type = ''SERIAL'', is_nullable = False, is_primary_key = True\<rparr>]"
proof -
  have h: "(''widget_tags'', repeated_field_table ''widget_tags'' ''string'' ''widget'')
     \<in> set (parse_proto_file example_re ''Widget'' widget_matches)"
    by (simp add: widget_parsed widget_tables_def)
  from single_primary_key[OF h] h show ?thesis by simp
qed

section \<open>Unmapped types\<close>

text \<open>
  Claim C9: a field line whose declared type is not a key of the type-mapping table is
  translated without an error, and the type of what it produces is TEXT: for a repeated
  field the \<open>value\<close> column of the child table that is stored, otherwise the column
  appended to the columns of the message. The translation has no error exit at all: the
  functions of the model return a plain value.
\<close>

theorem unmapped_type_is_text:
  assumes "field_type \<notin> fst ` set TYPE_MAPPING"
      and "strip raw \<noteq> []" and "\<not> prefix ''//'' (strip raw)"
      and "field_re (strip raw) = Some (modifier, field_type, field_name, number)"
  shows "parse_line field_re P raw (cols, tbls) =
           (if modifier = Some ''repeated''
            then (cols,
                  AList.update (P @ ''_'' @ field_name)
                    \<lparr>Table.name = P @ ''_'' @ field_name,
                      columns =
                        [\<lparr>Column.name = ''id'', data_type = ''SERIAL'', is_nullable = False,
                           is_primary_key = True\<rparr>,
                         \<lparr>Column.name = ''parent_id'', data_type = ''BIGINT'',
                           is_nullable = False, is_primary_key = False\<rparr>,
                         \<lparr>Column.name = ''value'', data_type = ''TEXT'', is_nullable = False,
                           is_primary_key = False\<rparr>],
                      foreign_keys = [''FOREIGN KEY (parent_id) REFERENCES '' @ P @ ''(id)'']\<rparr>
                    tbls)
            else (cols @
                    [\<lparr>Column.name = field_name, data_type = ''TEXT'',
                       is_nullable = (modifier \<noteq> Some ''required''), is_primary_key = False\<rparr>],
                  tbls))"
proof -
  from assms(1) have "map_of TYPE_MAPPING field_type = None"
    by (simp add: map_of_eq_None_iff)
  then have "type_mapping_get field_type = ''TEXT''"
    by (simp add: type_mapping_get_def)
  with assms(2-4) show ?thesis
    by (simp add: parse_line_def handle_repeated_field_def repeated_field_table_def
        field_column_def)
qed

theorem unmapped_type_is_text_witness:
  "''geo'' \<notin> fst ` set TYPE_MAPPING \<and> ''blob'' \<notin> fst ` set TYPE_MAPPING \<and>
   parse_line example_re ''widget'' ''  required geo place = 3;'' ([id_column], []) =
     ([id_column,
       \<lparr>Column.name = ''place'', data_type = ''TEXT'', is_nullable = False,
          is_primary_key = False\<rparr>], []) \<and>
   snd (parse_line example_re ''widget'' ''  repeated blob data = 2;'' ([id_column], [])) =
     [(''widget_data'',
       \<lparr>Table.name = ''widget_data'',
          columns =
            [\<lparr>Column.name = ''id'', data_type = ''SERIAL'', is_nullable = False,
               is_primary_key = True\<rparr>,
             \<lparr>Column.name = ''parent_id'', data_type = ''BIGINT'',
               is_nullable = False, is_primary_key = False\<rparr>,
             \<lparr>Column.name = ''value'', data_type = ''TEXT'', is_nullable = False,
               is_primary_key = False\<rparr>],
          foreign_keys = [''FOREIGN KEY (parent_id) REFERENCES widget(id)'']\<rparr>)]"
proof -
  have geo: "''geo'' \<notin> fst ` set TYPE_MAPPING" and blob: "''blob'' \<notin> fst ` set TYPE_MAPPING"
    by (simp_all add: TYPE_MAPPING_def)
  have s1: "strip ''  required geo place = 3;'' = ''required geo place = 3;''"
   and s2: "strip ''  repeated blob data = 2;'' = ''repeated blob data = 2;''"
    by (simp_all add: strip_def isspace_def)
  have a: "strip ''  required geo place = 3;'' \<noteq> []"
      "\<not> prefix ''//'' (strip ''  required geo place = 3;'')"
      "example_re (strip ''  required geo place = 3;'') =
         Some (Some ''required'', ''geo'', ''place'', ''3'')"
    by (simp_all add: s1 example_re_def)
  have b: "strip ''  repeated blob data = 2;'' \<noteq> []"
      "\<not> prefix ''//'' (strip ''  repeated blob data = 2;'')"
      "example_re (strip ''  repeated blob data = 2;'') =
         Some (Some ''repeated'', ''blob'', ''data'', ''2'')"
    by (simp_all add: s2 example_re_def)
  from unmapped_type_is_text[where raw = "''  required geo place = 3;''"
         and field_re = example_re and P = "''widget''" and cols = "[id_column]"
         and tbls = "[]", OF geo a]
       unmapped_type_is_text[where raw = "''  repeated blob data = 2;''"
         and field_re = example_re and P = "''widget''" and cols = "[id_column]"
         and tbls = "[]", OF blob b]
       geo blob
  show ?thesis by simp
qed

section \<open>The reconciler, table by table\<close>

lemma fold_append_concat: "fold (\<lambda>x acc. acc @ f x) xs acc = acc @ concat (map f xs)"
  by (induction xs arbitrary: acc) auto

lemma generate_migration_concat:
  "generate_migration set_iter current new_tables =
     concat (map (table_statements set_iter current) new_tables)"
proof -
  have "(\<lambda>(table_name, new_table) migration_statements.
             case map_of current table_name of
               None \<Rightarrow> migration_statements @ create_table_statements new_table
             | Some current_table \<Rightarrow>
                 migration_statements @
                 alter_table_statements set_iter current_table new_table) =
        (\<lambda>kt acc. acc @ table_statements set_iter current kt)"
    by (auto simp: fun_eq_iff table_statements_def split: option.splits)
  then show ?thesis
    by (simp add: generate_migration_def fold_append_concat)
qed

lemma fold_cond_append:
  "fold (\<lambda>x st. if Q x then st @ [g x] else st) xs st = st @ map g (filter Q xs)"
  by (induction xs arbitrary: st) auto

lemma alter_table_statements_eq:
  "alter_table_statements set_iter current new =
     fold (\<lambda>fk st. st @ [alter_fk_stmt (Table.name current) (length st) fk])
       (set_iter (fk_difference (foreign_keys new) (foreign_keys current)))
       (map (\<lambda>kc. add_column_stmt (Table.name current) (fst kc) (snd kc))
          (filter (\<lambda>kc. map_of (cols_dict (columns current)) (fst kc) = None)
             (cols_dict (columns new))) @
        map (\<lambda>kc. alter_column_stmt (Table.name current) (fst kc) (snd kc))
          (filter (col_changed (cols_dict (columns current))) (cols_dict (columns new))))"
proof -
  let ?cc = "cols_dict (columns current)"
  have a: "(\<lambda>(col_name, col) st.
                    if map_of ?cc col_name = None
                    then st @ [add_column_stmt (Table.name current) col_name col]
                    else st) =
        (\<lambda>kc st. if map_of ?cc (fst kc) = None
                  then st @ [add_column_stmt (Table.name current) (fst kc) (snd kc)] else st)"
    by (auto simp: fun_eq_iff)
  have b: "(\<lambda>(col_name, new_col) st.
                    case map_of ?cc col_name of
                      None \<Rightarrow> st
                    | Some current_col \<Rightarrow>
                        if data_type new_col \<noteq> data_type current_col \<or>
                           is_nullable new_col \<noteq> is_nullable current_col
                        then st @ [alter_column_stmt (Table.name current) col_name new_col]
                        else st) =
        (\<lambda>kc st. if col_changed ?cc kc
                  then st @ [alter_column_stmt (Table.name current) (fst kc) (snd kc)] else st)"
    by (auto simp: fun_eq_iff col_changed_def split: option.splits)
  show ?thesis
    unfolding alter_table_statements_def Let_def a b fold_cond_append by simp
qed




lemma set_iteration_remdups: "set_iteration remdups"
  by (simp add: set_iteration_def)

lemma set_iteration_rev_remdups: "set_iteration (rev \<circ> remdups)"
  by (simp add: set_iteration_def)


section \<open>Tables without differences\<close>



section \<open>Tables that are not declared\<close>

text \<open>
  Claim C10: the statement sequence depends on the current model only through the
  tables stored under the names of the declared tables. Two current models that agree
  on these names give the same statements, so a table that is in the current model only
  contributes nothing and is left untouched.
\<close>

theorem current_only_tables_ignored:
  assumes "\<forall>k \<in> fst ` set declared. map_of current k = map_of current' k"
  shows "generate_migration set_iter current declared =
         generate_migration set_iter current' declared"
proof -
  have "table_statements set_iter current kt = table_statements set_iter current' kt"
    if "kt \<in> set declared" for kt
    using assms that by (simp add: table_statements_def)
  then show ?thesis
    by (simp add: generate_migration_concat cong: map_cong)
qed

theorem current_only_tables_ignored_witness:
  "map_of [(''legacy'', legacy_table)] ''legacy'' = Some legacy_table \<and>
   ''legacy'' \<notin> fst ` set widget_tables \<and>
   generate_migration remdups [(''legacy'', legacy_table)] widget_tables =
   generate_migration remdups [] widget_tables"
proof -
  have h: "\<forall>k \<in> fst ` set widget_tables.
      map_of [(''legacy'', legacy_table)] k = map_of ([] :: tables) k"
    by (simp add: widget_tables_def)
  from current_only_tables_ignored[OF h] show ?thesis
    by (simp add: widget_tables_def)
qed

section \<open>No statement drops anything\<close>

lemma sublist_delim:
  assumes "\<not> sublist p a" and "c \<notin> set p"
  shows "sublist p (a @ c # b) \<longleftrightarrow> sublist p b"
proof
  assume "sublist p b"
  then have "sublist p (c # b)" by (simp add: sublist_Cons_right)
  then show "sublist p (a @ c # b)"
    by (metis sublist_order.order.trans suffix_imp_sublist suffixI)
next
  assume "sublist p (a @ c # b)"
  then consider "sublist p a" | "sublist p (c # b)"
    | xs1 xs2 where "p = xs1 @ xs2" "suffix xs1 a" "prefix xs2 (c # b)"
    by (auto simp: sublist_append)
  then show "sublist p b"
  proof cases
    case 1
    with assms show ?thesis by simp
  next
    case 2
    then have "prefix p (c # b) \<or> sublist p b" by (simp add: sublist_Cons_right)
    moreover have "\<not> prefix p (c # b)"
      using assms by (cases p) (auto simp: prefix_Cons)
    ultimately show ?thesis by simp
  next
    case 3
    show ?thesis
    proof (cases xs2)
      case Nil
      with 3 have "suffix p a" by simp
      with assms show ?thesis by (auto dest: suffix_imp_sublist)
    next
      case (Cons y ys)
      with 3 have "y = c" by (simp add: prefix_Cons)
      with 3 Cons assms show ?thesis by simp
    qed
  qed
qed

lemma drop_free_delim [simp]:
  "drop_free a \<Longrightarrow> c \<notin> set ''DROP'' \<Longrightarrow> drop_free (a @ c # b) \<longleftrightarrow> drop_free b"
  by (simp add: drop_free_def sublist_delim)

lemma drop_free_Nil [simp]: "drop_free []"
  by (simp add: drop_free_def)

lemma drop_free_Cons [simp]:
  "c \<noteq> CHR ''D'' \<Longrightarrow> drop_free (c # s) \<longleftrightarrow> drop_free s"
  by (simp add: drop_free_def sublist_Cons_right prefix_Cons)

lemma drop_free_D [simp]:
  "drop_free (CHR ''D'' # s) \<longleftrightarrow> \<not> prefix ''ROP'' s \<and> drop_free s"
  by (auto simp add: drop_free_def sublist_Cons_right)



lemma drop_free_nullable_str [simp]: "drop_free (nullable_str b @ s) \<longleftrightarrow> drop_free s"
  by (simp add: nullable_str_def)


















lemma widget_migration:
  "generate_migration set_iter [] widget_tables =
     [''\<newline>            CREATE TABLE widget_tags (\<newline>                id SERIAL NOT NULL PRIMARY KEY,parent_id BIGINT NOT NULL,value TEXT NOT NULL\<newline>            );\<newline>            '',
      ''ALTER TABLE widget_tags ADD CONSTRAINT fk_widget_tags FOREIGN KEY (parent_id) REFERENCES widget(id);'',
      ''\<newline>            CREATE TABLE widget (\<newline>                id SERIAL NOT NULL PRIMARY KEY\<newline>            );\<newline>            '']"
  by (simp add: generate_migration_def widget_tables_def create_table_statements_def
      repeated_field_table_def id_column_def column_def_def nullable_str_def strip_def
      isspace_def create_stmt_def create_fk_stmt_def type_mapping_get_def TYPE_MAPPING_def Let_def)





section \<open>Determinism\<close>

lemma distinct_same_set_short:
  assumes "distinct ys" "distinct zs" "set ys = set zs" "length zs \<le> 1"
  shows "ys = zs"
proof -
  from assms have "length ys = length zs"
    by (metis distinct_card)
  with assms show ?thesis
    by (cases ys; cases zs) auto
qed

lemma set_iteration_short:
  assumes "set_iteration set_iter" "length (remdups xs) \<le> 1"
  shows "set_iter xs = remdups xs"
  using assms distinct_same_set_short[of "set_iter xs" "remdups xs"]
  by (simp add: set_iteration_def)

lemma table_statements_iter:
  assumes "set_iteration it1" "set_iteration it2" "length (remdups (new_fks_of current kt)) \<le> 1"
  shows "table_statements it1 current kt = table_statements it2 current kt"
proof (cases "map_of current (fst kt)")
  case None
  then show ?thesis by (simp add: table_statements_def)
next
  case (Some c)
  with assms(3) have "length (remdups (fk_difference (foreign_keys (snd kt)) (foreign_keys c))) \<le> 1"
    by (simp add: new_fks_of_def)
  with assms(1,2) have "it1 (fk_difference (foreign_keys (snd kt)) (foreign_keys c)) =
      it2 (fk_difference (foreign_keys (snd kt)) (foreign_keys c))"
    by (simp add: set_iteration_short)
  with Some show ?thesis
    by (simp add: table_statements_def alter_table_statements_eq)
qed

lemma parsed_foreign_keys:
  assumes "(k, t) \<in> set (parse_proto_file field_re fstem ms)"
  shows "length (foreign_keys t) \<le> 1"
proof -
  from assms parse_proto_file_subset have "(k, t) \<in> set (source_writes field_re fstem ms)"
    by blast
  with source_write_shape show ?thesis
    by (fastforce simp: repeated_field_table_def)
qed

lemma length_remdups_filter_le: "length (remdups (filter Q xs)) \<le> length xs"
  by (rule le_trans[OF length_remdups_leq length_filter_le])



text \<open>
  Claim C3, as the code has it. The reconciler is a function of the two models except
  for one point: the new foreign keys of an existing table are taken from a Python set,
  whose iteration order is not fixed by the inputs, and the order decides both the order
  of the ADD CONSTRAINT statements and which running number each constraint name gets
  (the counterexample below). When every declared table has at most one foreign key that
  its current counterpart lacks, any two iteration orders give the same statement
  sequence, names included. Every model that the translator produces is of this kind,
  since its tables have at most one foreign key.
\<close>

theorem set_order_irrelevant:
  assumes "set_iteration it1" and "set_iteration it2"
  shows "((\<forall>kt \<in> set declared. length (remdups (new_fks_of current kt)) \<le> 1) \<longrightarrow>
            generate_migration it1 current declared = generate_migration it2 current declared) \<and>
         generate_migration it1 current (parse_proto_file field_re fstem ms) =
         generate_migration it2 current (parse_proto_file field_re fstem ms)"
proof -
  have gen: "generate_migration it1 current d = generate_migration it2 current d"
    if short: "\<forall>kt \<in> set d. length (remdups (new_fks_of current kt)) \<le> 1" for d
  proof -
    have "map (table_statements it1 current) d = map (table_statements it2 current) d"
    proof (rule map_cong[OF refl])
      fix kt assume "kt \<in> set d"
      with short have "length (remdups (new_fks_of current kt)) \<le> 1" by blast
      then show "table_statements it1 current kt = table_statements it2 current kt"
        by (rule table_statements_iter[OF assms])
    qed
    then show ?thesis by (simp only: generate_migration_concat)
  qed
  have parsed: "length (remdups (new_fks_of current kt)) \<le> 1"
    if kt: "kt \<in> set (parse_proto_file field_re fstem ms)" for kt
  proof (cases "map_of current (fst kt)")
    case None
    then show ?thesis by (simp add: new_fks_of_def)
  next
    case (Some c)
    from kt have "(fst kt, snd kt) \<in> set (parse_proto_file field_re fstem ms)" by simp
    then have "length (foreign_keys (snd kt)) \<le> 1" by (rule parsed_foreign_keys)
    with length_remdups_filter_le[of "\<lambda>fk. fk \<notin> set (foreign_keys c)" "foreign_keys (snd kt)"]
    have "length (remdups (fk_difference (foreign_keys (snd kt)) (foreign_keys c))) \<le> 1"
      unfolding fk_difference_def by (rule le_trans)
    with Some show ?thesis by (simp add: new_fks_of_def)
  qed
  from gen[of "parse_proto_file field_re fstem ms"] parsed
  have two: "generate_migration it1 current (parse_proto_file field_re fstem ms) =
         generate_migration it2 current (parse_proto_file field_re fstem ms)"
    by blast
  from gen[of declared] two show ?thesis by blast
qed

theorem set_order_irrelevant_witness:
  "set_iteration remdups \<and> set_iteration (rev \<circ> remdups) \<and>
   generate_migration remdups widget_tags_current widget_tables =
   generate_migration (rev \<circ> remdups) widget_tags_current widget_tables \<and>
   generate_migration remdups widget_tags_current
     (parse_proto_file example_re ''Widget'' widget_matches) =
   generate_migration (rev \<circ> remdups) widget_tags_current
     (parse_proto_file example_re ''Widget'' widget_matches)"
proof -
  have h: "\<forall>kt \<in> set widget_tables. length (remdups (new_fks_of widget_tags_current kt)) \<le> 1"
    by (simp add: widget_tables_def widget_tags_current_def new_fks_of_def fk_difference_def
        repeated_field_table_def)
  from set_order_irrelevant[OF set_iteration_remdups set_iteration_rev_remdups,
         where declared = widget_tables and current = widget_tags_current
           and field_re = example_re and fstem = "''Widget''" and ms = widget_matches]
       h set_iteration_remdups set_iteration_rev_remdups
  show ?thesis by simp
qed

text \<open>
  The counterexample to C3 as stated: the table \<open>asset\<close> exists without foreign keys
  and is declared with two; the two iteration orders of the set of new foreign keys give
  different sequences.
\<close>

theorem set_order_changes_statements:
  "set_iteration remdups \<and> set_iteration (rev \<circ> remdups) \<and>
   generate_migration remdups asset_current asset_declared =
     [''ALTER TABLE asset ADD CONSTRAINT fk_asset_0 FOREIGN KEY (owner_id) REFERENCES owner(id);'',
      ''ALTER TABLE asset ADD CONSTRAINT fk_asset_1 FOREIGN KEY (site_id) REFERENCES site(id);''] \<and>
   generate_migration (rev \<circ> remdups) asset_current asset_declared =
     [''ALTER TABLE asset ADD CONSTRAINT fk_asset_0 FOREIGN KEY (site_id) REFERENCES site(id);'',
      ''ALTER TABLE asset ADD CONSTRAINT fk_asset_1 FOREIGN KEY (owner_id) REFERENCES owner(id);''] \<and>
   generate_migration remdups asset_current asset_declared \<noteq>
   generate_migration (rev \<circ> remdups) asset_current asset_declared"
  by (simp add: set_iteration_remdups set_iteration_rev_remdups generate_migration_def
      asset_current_def asset_declared_def alter_table_statements_def cols_dict_def id_column_def
      fk_difference_def alter_fk_stmt_def str_nat.simps Let_def)



section \<open>Statement order\<close>

text \<open>
  Claim C5 fails on the code. A child table is stored into \<^verbatim>\<open>self.tables\<close> while the
  fields of its message are read, the table of the message only after the loop, so the
  child table comes first in the declared model and in the statement sequence. For the
  source \<open>Widget\<close> with \<^verbatim>\<open>message Root { repeated string tags = 1; }\<close> and an empty
  current model, the ADD CONSTRAINT statement that references \<open>widget(id)\<close> is the second
  statement, and the CREATE TABLE of \<open>widget\<close> the third.
\<close>

theorem child_constraint_precedes_parent:
  "generate_migration set_iter [] (parse_proto_file example_re ''Widget'' widget_matches) =
     [''\<newline>            CREATE TABLE widget_tags (\<newline>                id SERIAL NOT NULL PRIMARY KEY,parent_id BIGINT NOT NULL,value TEXT NOT NULL\<newline>            );\<newline>            '',
      ''ALTER TABLE widget_tags ADD CONSTRAINT fk_widget_tags FOREIGN KEY (parent_id) REFERENCES widget(id);'',
      ''\<newline>            CREATE TABLE widget (\<newline>                id SERIAL NOT NULL PRIMARY KEY\<newline>            );\<newline>            '']"
  by (simp only: widget_parsed widget_migration)

section \<open>A failing file\<close>

lemma process_files_append:
  "process_files field_re set_iter exec current w (xs @ ys) mf =
     (case process_files field_re set_iter exec current w xs mf of
        (w', Inl e) \<Rightarrow> (w', Inl e)
      | (w', Inr mf') \<Rightarrow> process_files field_re set_iter exec current w' ys mf')"
proof (induction xs arbitrary: w mf)
  case Nil
  then show ?case by simp
next
  case (Cons x xs)
  obtain w' r where step: "process_proto_file field_re set_iter exec current w x = (w', r)"
    by (cases "process_proto_file field_re set_iter exec current w x")
  show ?case
  proof (cases r)
    case (Inl e)
    with step show ?thesis by simp
  next
    case (Inr sql_file)
    with step Cons.IH show ?thesis by simp
  qed
qed

lemma process_proto_file_rollback:
  assumes "process_proto_file field_re set_iter exec current w pf = (w', Inl e)"
  shows "db w' = db w"
proof (cases "generate_migration set_iter current
                 (parse_proto_file field_re (stem pf) (matches pf)) = []")
  case True
  with assms show ?thesis by (simp add: process_proto_file_def)
next
  case False
  with assms show ?thesis
    by (simp add: process_proto_file_def Let_def split: sum.splits)
       (auto)
qed

lemma widget_file_fails:
  "process_proto_file example_re remdups reject_constraint [] empty_world widget_file =
     (\<lparr>db = [],
       sql_files =
         [(''Widget'', generate_migration remdups [] widget_tables)]\<rparr>,
      Inl (ExecutionError
        ''ALTER TABLE widget_tags ADD CONSTRAINT fk_widget_tags FOREIGN KEY (parent_id) REFERENCES widget(id);''))"
  by (simp add: process_proto_file_def widget_file_def widget_parsed Let_def empty_world_def)
     (simp add: widget_migration reject_constraint_def)

lemma gadget_file_alone:
  "process_proto_file example_re remdups reject_constraint [] empty_world gadget_file =
     (\<lparr>db = [''\<newline>            CREATE TABLE gadget (\<newline>                id SERIAL NOT NULL PRIMARY KEY,label TEXT NULL\<newline>            );\<newline>            ''],
       sql_files =
         [(''gadget'', [''\<newline>            CREATE TABLE gadget (\<newline>                id SERIAL NOT NULL PRIMARY KEY,label TEXT NULL\<newline>            );\<newline>            ''])]\<rparr>,
      Inr (Some ''gadget''))"
  by (simp add: process_proto_file_def gadget_file_def Let_def empty_world_def
      parse_proto_file_def parse_message_def parse_line_def strip_def isspace_def example_re_def
      message_table_name_def str_lower_def lower_char_def field_column_def type_mapping_get_def
      TYPE_MAPPING_def generate_migration_def create_table_statements_def id_column_def
      column_def_def nullable_str_def create_stmt_def reject_constraint_def)

text \<open>
  Claim C7, as the code has it. \<^verbatim>\<open>process_proto_file\<close> rolls back and raises the
  exception again, and the loop of \<^verbatim>\<open>main\<close> does not catch it: when the files before
  \<open>pf\<close> are processed without error and \<open>pf\<close> fails, the run ends with that error, the
  database is the one reached before \<open>pf\<close>, and the result is the same whatever files
  follow \<open>pf\<close> in the list: none of them is processed.
\<close>

theorem failure_ends_run:
  assumes "process_files field_re set_iter exec current w pre [] = (w1, Inr mf1)"
      and "process_proto_file field_re set_iter exec current w1 pf = (w2, Inl e)"
  shows "main field_re set_iter exec current w (pre @ pf # post) = (w2, Inl e) \<and> db w2 = db w1"
  using assms process_proto_file_rollback[OF assms(2)]
  by (simp add: main_def process_files_append)

theorem failure_ends_run_witness:
  "main example_re remdups reject_constraint [] empty_world [widget_file, gadget_file] =
     (\<lparr>db = [],
       sql_files = [(''Widget'', generate_migration remdups [] widget_tables)]\<rparr>,
      Inl (ExecutionError
        ''ALTER TABLE widget_tags ADD CONSTRAINT fk_widget_tags FOREIGN KEY (parent_id) REFERENCES widget(id);''))"
proof -
  have pre: "process_files example_re remdups reject_constraint [] empty_world [] [] =
               (empty_world, Inr [])"
    by simp
  from failure_ends_run[OF pre widget_file_fails, of "[gadget_file]"] show ?thesis by simp
qed

text \<open>
  The counterexample to C7 as stated: the file \<open>Widget\<close> fails, the file \<open>gadget\<close>
  would succeed on its own and create its table, and after the run over both files the
  database is empty and only the migration of \<open>Widget\<close> was written.
\<close>

theorem later_file_not_processed:
  "snd (process_proto_file example_re remdups reject_constraint [] empty_world widget_file) =
     Inl (ExecutionError
        ''ALTER TABLE widget_tags ADD CONSTRAINT fk_widget_tags FOREIGN KEY (parent_id) REFERENCES widget(id);'') \<and>
   snd (process_proto_file example_re remdups reject_constraint [] empty_world gadget_file) =
     Inr (Some ''gadget'') \<and>
   db (fst (process_proto_file example_re remdups reject_constraint [] empty_world gadget_file)) =
     [''\<newline>            CREATE TABLE gadget (\<newline>                id SERIAL NOT NULL PRIMARY KEY,label TEXT NULL\<newline>            );\<newline>            ''] \<and>
   snd (main example_re remdups reject_constraint [] empty_world [widget_file, gadget_file]) =
     Inl (ExecutionError
        ''ALTER TABLE widget_tags ADD CONSTRAINT fk_widget_tags FOREIGN KEY (parent_id) REFERENCES widget(id);'') \<and>
   db (fst (main example_re remdups reject_constraint [] empty_world [widget_file, gadget_file])) = [] \<and>
   map fst (sql_files (fst (main example_re remdups reject_constraint [] empty_world
     [widget_file, gadget_file]))) = [''Widget'']"
  by (simp add: main_def widget_file_fails gadget_file_alone)

end
